theory Spec2Isabelle
  imports Main "HOL-Library.AList"
begin

section \<open>Values, dictionaries and exceptions\<close>

text \<open>
  A message is a Python \<^verbatim>\<open>dict[str, Any]\<close>. Its values are the values that JSON can carry:
  \<^verbatim>\<open>None\<close>, booleans, integers, strings, lists and dictionaries with string keys.
  Floating-point numbers are left out of the model. A dictionary is an association list in
  insertion order; Python never holds a key twice, so dictionaries are built with
  \<^const>\<open>AList.update\<close> only, which replaces the value of a key in place and appends a new
  key at the end, as assignment to a Python dict does. A string is a list of characters, each
  standing for the code point of the same number (U+0000 to U+00FF).
\<close>

datatype json =
    JNull
  | JBool bool
  | JInt int
  | JStr string
  | JList "json list"
  | JDict "(string \<times> json) list"

type_synonym pydict = "(string \<times> json) list"

type_synonym datetime = int

datatype exn =
    KeyError
  | TypeError
  | AttributeError
  | ValueError
  | JSONDecodeError
  | Unmodelled

text \<open>Python's truth value of an object, as \<^verbatim>\<open>not x\<close> and \<^verbatim>\<open>if x\<close> test it.\<close>

fun truthy :: "json \<Rightarrow> bool" where
  "truthy JNull = False"
| "truthy (JBool b) = b"
| "truthy (JInt i) = (i \<noteq> 0)"
| "truthy (JStr s) = (s \<noteq> [])"
| "truthy (JList xs) = (xs \<noteq> [])"
| "truthy (JDict d) = (d \<noteq> [])"

text \<open>\<^verbatim>\<open>d.get(k)\<close> and \<^verbatim>\<open>d.get(k, default)\<close>.\<close>

definition dict_get :: "pydict \<Rightarrow> string \<Rightarrow> json" where
  "dict_get d k = (case map_of d k of None \<Rightarrow> JNull | Some v \<Rightarrow> v)"

definition dict_get_default :: "pydict \<Rightarrow> string \<Rightarrow> json \<Rightarrow> json" where
  "dict_get_default d k dflt = (case map_of d k of None \<Rightarrow> dflt | Some v \<Rightarrow> v)"

section \<open>Session\<close>

record session =
  key :: string
  messages :: "pydict list"
  created_at :: datetime
  updated_at :: datetime
  metadata :: json
  last_consolidated :: json

text \<open>
  \<^verbatim>\<open>add_message\<close> reads the clock twice: once for the message's timestamp (already
  rendered by \<^verbatim>\<open>isoformat\<close> in \<open>timestamp\<close>) and once for \<^verbatim>\<open>updated_at\<close>.
  The keyword arguments are a dictionary that is unpacked last, so they may override
  \<^verbatim>\<open>timestamp\<close> but keep its place.
\<close>

definition add_message :: "string \<Rightarrow> datetime \<Rightarrow> string \<Rightarrow> string \<Rightarrow> pydict \<Rightarrow> session \<Rightarrow> session" where
  "add_message timestamp now role content kwargs s =
     (let msg = fold (\<lambda>(k, v). AList.update k v) kwargs
                  [(''role'', JStr role), (''content'', JStr content), (''timestamp'', JStr timestamp)]
      in s\<lparr>messages := messages s @ [msg], updated_at := now\<rparr>)"

definition is_context_anchor :: "pydict \<Rightarrow> bool" where
  "is_context_anchor message =
     (let role = dict_get message ''role'' in
      if role = JStr ''user'' then True
      else if role \<noteq> JStr ''assistant'' then False
      else \<not> truthy (dict_get message ''tool_calls''))"

definition count_context_messages :: "session \<Rightarrow> int" where
  "count_context_messages s = sum_list (map (\<lambda>m. 1) (filter is_context_anchor (messages s)))"

text \<open>
  The first loop of \<^verbatim>\<open>get_history\<close>: it walks the reversed log, appends every message to
  \<open>selected\<close> and leaves after the anchor that brings \<open>anchors_seen\<close> to \<open>max_messages\<close>.
\<close>

fun collect :: "int \<Rightarrow> pydict list \<Rightarrow> int \<Rightarrow> pydict list \<Rightarrow> pydict list" where
  "collect max_messages [] anchors_seen selected = selected"
| "collect max_messages (m # ms) anchors_seen selected =
     (let selected = selected @ [m] in
      if is_context_anchor m then
        (let anchors_seen = anchors_seen + 1 in
         if anchors_seen \<ge> max_messages then selected
         else collect max_messages ms anchors_seen selected)
      else collect max_messages ms anchors_seen selected)"

text \<open>
  The entry built for one message: \<^verbatim>\<open>m["role"]\<close> raises \<^verbatim>\<open>KeyError\<close> when the key is
  missing, \<^verbatim>\<open>m.get("content", "")\<close> does not; the four optional keys are copied when present.
\<close>

definition optional_keys :: "string list" where
  "optional_keys = [''tool_calls'', ''tool_call_id'', ''name'', ''reasoning_content'']"

definition entry_of :: "pydict \<Rightarrow> exn + pydict" where
  "entry_of m =
     (case map_of m ''role'' of
        None \<Rightarrow> Inl KeyError
      | Some r \<Rightarrow>
          Inr (fold (\<lambda>k entry. case map_of m k of None \<Rightarrow> entry | Some v \<Rightarrow> AList.update k v entry)
                 optional_keys
                 [(''role'', r), (''content'', dict_get_default m ''content'' (JStr ''''))]))"

text \<open>The second loop: one entry per selected message, appended to \<open>out\<close>.\<close>

fun emit :: "pydict list \<Rightarrow> pydict list \<Rightarrow> exn + pydict list" where
  "emit [] out = Inr out"
| "emit (m # ms) out =
     (case entry_of m of
        Inl e \<Rightarrow> Inl e
      | Inr entry \<Rightarrow> emit ms (out @ [entry]))"

definition get_history :: "session \<Rightarrow> int \<Rightarrow> exn + pydict list" where
  "get_history s max_messages =
     (if max_messages \<le> 0 then Inr []
      else emit (rev (collect max_messages (rev (messages s)) 0 [])) [])"

definition clear :: "datetime \<Rightarrow> session \<Rightarrow> session" where
  "clear now s = s\<lparr>messages := [], last_consolidated := JInt 0, updated_at := now\<rparr>"

text \<open>The window of the log that \<^verbatim>\<open>get_history\<close> projects, oldest message first.\<close>

definition window :: "int \<Rightarrow> pydict list \<Rightarrow> pydict list" where
  "window k msgs = rev (collect k (rev msgs) 0 [])"

text \<open>The number of anchors in a list of messages.\<close>

definition anchors :: "pydict list \<Rightarrow> nat" where
  "anchors msgs = length (filter is_context_anchor msgs)"



subsection \<open>Example logs\<close>

text \<open>
  One turn that runs a tool: the user's question, the assistant's tool call, the tool's
  result and the assistant's final answer.
\<close>

definition tool_log :: "pydict list" where
  "tool_log =
     [[(''role'', JStr ''user''), (''content'', JStr ''q''), (''timestamp'', JStr ''t1'')],
      [(''role'', JStr ''assistant''), (''content'', JStr ''''), (''timestamp'', JStr ''t2''),
       (''tool_calls'', JList [JDict [(''id'', JStr ''c1'')]])],
      [(''role'', JStr ''tool''), (''content'', JStr ''r''), (''timestamp'', JStr ''t3''),
       (''tool_call_id'', JStr ''c1'')],
      [(''role'', JStr ''assistant''), (''content'', JStr ''done''), (''timestamp'', JStr ''t4'')]]"

definition tool_session :: session where
  "tool_session = \<lparr>key = ''cli:1'', messages = tool_log, created_at = 0, updated_at = 0,
     metadata = JDict [], last_consolidated = JInt 0\<rparr>"

text \<open>An assistant message whose \<^verbatim>\<open>tool_calls\<close> field is an empty dictionary.\<close>

definition empty_calls_message :: pydict where
  "empty_calls_message =
     [(''role'', JStr ''assistant''), (''content'', JStr ''hi''), (''tool_calls'', JDict [])]"

section \<open>JSON text\<close>

text \<open>
  The session file is written with \<^verbatim>\<open>json.dumps(obj, ensure_ascii=False)\<close> and read with
  \<^verbatim>\<open>json.loads\<close>. Both belong to Python's standard library; they are modelled here on the
  values of type \<^typ>\<open>json\<close>. Python's limit on the number of digits of an integer and its
  recursion limit are not modelled.
\<close>

subsection \<open>Writing\<close>

definition dquote :: char where "dquote = CHR 0x22"

definition backslash :: char where "backslash = CHR 0x5C"

definition digit_char :: "nat \<Rightarrow> char" where
  "digit_char n = char_of (48 + n)"

fun nat_digits :: "nat \<Rightarrow> string" where
  "nat_digits n = (if n < 10 then [digit_char n] else nat_digits (n div 10) @ [digit_char (n mod 10)])"

declare nat_digits.simps [simp del]

definition int_repr :: "int \<Rightarrow> string" where
  "int_repr i = (if i < 0 then CHR ''-'' # nat_digits (nat (- i)) else nat_digits (nat i))"

definition hex_char :: "nat \<Rightarrow> char" where
  "hex_char n = ''0123456789abcdef'' ! n"

text \<open>
  With \<^verbatim>\<open>ensure_ascii=False\<close> the encoder escapes the double quote, the backslash and the
  control characters below U+0020 only: five of them by a letter, the others by a backslash,
  the letter u and four hexadecimal digits. Every other character is written as it is.
\<close>

definition escape_char :: "char \<Rightarrow> string" where
  "escape_char c =
     (if c = dquote then [backslash, dquote]
      else if c = backslash then [backslash, backslash]
      else if c = CHR 0x0A then [backslash, CHR ''n'']
      else if c = CHR 0x0D then [backslash, CHR ''r'']
      else if c = CHR 0x09 then [backslash, CHR ''t'']
      else if c = CHR 0x08 then [backslash, CHR ''b'']
      else if c = CHR 0x0C then [backslash, CHR ''f'']
      else if (of_char c :: nat) < 0x20 then
        [backslash, CHR ''u'', CHR ''0'', CHR ''0'', hex_char (of_char c div 16), hex_char (of_char c mod 16)]
      else [c])"

definition encode_str :: "string \<Rightarrow> string" where
  "encode_str s = dquote # concat (map escape_char s) @ [dquote]"

text \<open>
  The default separators: a comma and a space between items, a colon and a space after a key.
\<close>

fun dumps :: "json \<Rightarrow> string"
  and dumps_items :: "json list \<Rightarrow> string"
  and dumps_pairs :: "(string \<times> json) list \<Rightarrow> string" where
  "dumps JNull = ''null''"
| "dumps (JBool b) = (if b then ''true'' else ''false'')"
| "dumps (JInt i) = int_repr i"
| "dumps (JStr s) = encode_str s"
| "dumps (JList xs) = ''['' @ dumps_items xs @ '']''"
| "dumps (JDict d) = ''{'' @ dumps_pairs d @ ''}''"
| "dumps_items [] = []"
| "dumps_items (x # xs) = dumps x @ (if xs = [] then [] else '', '' @ dumps_items xs)"
| "dumps_pairs [] = []"
| "dumps_pairs (p # ps) =
     encode_str (fst p) @ '': '' @ dumps (snd p) @ (if ps = [] then [] else '', '' @ dumps_pairs ps)"

subsection \<open>Reading\<close>

definition is_ws :: "char \<Rightarrow> bool" where
  "is_ws c = (c = CHR '' '' \<or> c = CHR 0x09 \<or> c = CHR 0x0A \<or> c = CHR 0x0D)"

definition skip_ws :: "string \<Rightarrow> string" where
  "skip_ws s = dropWhile is_ws s"

definition is_digit :: "char \<Rightarrow> bool" where
  "is_digit c = (48 \<le> (of_char c :: nat) \<and> (of_char c :: nat) \<le> 57)"

definition digit_val :: "char \<Rightarrow> nat" where
  "digit_val c = of_char c - 48"

definition hex_val :: "char \<Rightarrow> nat option" where
  "hex_val c =
     (let n = (of_char c :: nat) in
      if 48 \<le> n \<and> n \<le> 57 then Some (n - 48)
      else if 97 \<le> n \<and> n \<le> 102 then Some (n - 87)
      else if 65 \<le> n \<and> n \<le> 70 then Some (n - 55)
      else None)"

definition unescape :: "char \<Rightarrow> char option" where
  "unescape e =
     (if e = dquote then Some dquote
      else if e = backslash then Some backslash
      else if e = CHR ''/'' then Some CHR ''/''
      else if e = CHR ''b'' then Some (CHR 0x08)
      else if e = CHR ''f'' then Some (CHR 0x0C)
      else if e = CHR ''n'' then Some (CHR 0x0A)
      else if e = CHR ''r'' then Some (CHR 0x0D)
      else if e = CHR ''t'' then Some (CHR 0x09)
      else None)"

text \<open>
  The body of a string, after its opening quote: it ends at the closing quote, a control
  character is an error, and the escape of a code point above U+00FF lies outside the model.
\<close>

fun scan_string :: "string \<Rightarrow> exn + (string \<times> string)" where
  "scan_string [] = Inl JSONDecodeError"
| "scan_string (c # cs) =
     (if c = dquote then Inr ([], cs)
      else if c = backslash then
        (case cs of
           [] \<Rightarrow> Inl JSONDecodeError
         | e # cs' \<Rightarrow>
             if e = CHR ''u'' then
               (case cs' of
                  h1 # h2 # h3 # h4 # cs'' \<Rightarrow>
                    (case (hex_val h1, hex_val h2, hex_val h3, hex_val h4) of
                       (Some a, Some b, Some c, Some d) \<Rightarrow>
                         (let n = ((a * 16 + b) * 16 + c) * 16 + d in
                          if n < 256 then
                            (case scan_string cs'' of
                               Inl e \<Rightarrow> Inl e
                             | Inr (s, rest) \<Rightarrow> Inr (char_of n # s, rest))
                          else Inl Unmodelled)
                     | _ \<Rightarrow> Inl JSONDecodeError)
                | _ \<Rightarrow> Inl JSONDecodeError)
             else
               (case unescape e of
                  None \<Rightarrow> Inl JSONDecodeError
                | Some ch \<Rightarrow>
                    (case scan_string cs' of
                       Inl e \<Rightarrow> Inl e
                     | Inr (s, rest) \<Rightarrow> Inr (ch # s, rest))))
      else if (of_char c :: nat) < 0x20 then Inl JSONDecodeError
      else
        (case scan_string cs of
           Inl e \<Rightarrow> Inl e
         | Inr (s, rest) \<Rightarrow> Inr (c # s, rest)))"

text \<open>
  A number is an optional minus sign and either \<^verbatim>\<open>0\<close> or a digit sequence that does not
  start with \<^verbatim>\<open>0\<close>. When a fraction or an exponent follows, Python reads a float: outside
  the model.
\<close>

fun digits_val :: "nat \<Rightarrow> string \<Rightarrow> nat" where
  "digits_val acc [] = acc"
| "digits_val acc (c # cs) = digits_val (acc * 10 + digit_val c) cs"

definition scan_int :: "string \<Rightarrow> (int \<times> string) option" where
  "scan_int s =
     (let neg = (s \<noteq> [] \<and> hd s = CHR ''-'');
          s1 = (if neg then tl s else s)
      in case s1 of
           [] \<Rightarrow> None
         | c # cs \<Rightarrow>
             if c = CHR ''0'' then Some (0, cs)
             else if is_digit c then
               (let n = digits_val 0 (c # takeWhile is_digit cs)
                in Some (if neg then - int n else int n, dropWhile is_digit cs))
             else None)"

definition frac_start :: "string \<Rightarrow> bool" where
  "frac_start s = (case s of c # d # _ \<Rightarrow> c = CHR ''.'' \<and> is_digit d | _ \<Rightarrow> False)"

definition exp_start :: "string \<Rightarrow> bool" where
  "exp_start s =
     (case s of
        c # d # r \<Rightarrow>
          (c = CHR ''e'' \<or> c = CHR ''E'') \<and>
          (is_digit d \<or> ((d = CHR ''+'' \<or> d = CHR ''-'') \<and> (case r of d2 # _ \<Rightarrow> is_digit d2 | [] \<Rightarrow> False)))
      | _ \<Rightarrow> False)"

definition starts_with :: "string \<Rightarrow> string \<Rightarrow> bool" where
  "starts_with p s = (take (length p) s = p)"

text \<open>
  The scanner. Its first argument bounds the number of nested calls, so that the recursion is
  structural; \<^verbatim>\<open>loads\<close> starts it with more than the length of the text. An object's pairs
  are stored one after the other, a repeated key keeping its first place and its last value,
  as \<^verbatim>\<open>dict(pairs)\<close> does. The outcome \<^const>\<open>Unmodelled\<close> is not a Python exception: it
  marks a text that Python reads to a value outside the model.
\<close>

fun parse_value :: "nat \<Rightarrow> string \<Rightarrow> exn + (json \<times> string)"
  and parse_elems :: "nat \<Rightarrow> string \<Rightarrow> exn + (json list \<times> string)"
  and parse_members :: "nat \<Rightarrow> string \<Rightarrow> exn + ((string \<times> json) list \<times> string)" where
  "parse_value 0 s = Inl Unmodelled"
| "parse_value (Suc n) [] = Inl JSONDecodeError"
| "parse_value (Suc n) (c # cs) =
     (if c = dquote then
        (case scan_string cs of
           Inl e \<Rightarrow> Inl e
         | Inr (s, rest) \<Rightarrow> Inr (JStr s, rest))
      else if c = CHR ''{'' then
        (case skip_ws cs of
           [] \<Rightarrow> Inl JSONDecodeError
         | c1 # rest1 \<Rightarrow>
             if c1 = CHR ''}'' then Inr (JDict [], rest1)
             else
               (case parse_members n (c1 # rest1) of
                  Inl e \<Rightarrow> Inl e
                | Inr (pairs, rest) \<Rightarrow> Inr (JDict (fold (\<lambda>(k, v). AList.update k v) pairs []), rest)))
      else if c = CHR ''['' then
        (case skip_ws cs of
           [] \<Rightarrow> Inl JSONDecodeError
         | c1 # rest1 \<Rightarrow>
             if c1 = CHR '']'' then Inr (JList [], rest1)
             else
               (case parse_elems n (c1 # rest1) of
                  Inl e \<Rightarrow> Inl e
                | Inr (xs, rest) \<Rightarrow> Inr (JList xs, rest)))
      else if starts_with ''null'' (c # cs) then Inr (JNull, drop 4 (c # cs))
      else if starts_with ''true'' (c # cs) then Inr (JBool True, drop 4 (c # cs))
      else if starts_with ''false'' (c # cs) then Inr (JBool False, drop 5 (c # cs))
      else
        (case scan_int (c # cs) of
           Some (i, rest) \<Rightarrow>
             if frac_start rest \<or> exp_start rest then Inl Unmodelled else Inr (JInt i, rest)
         | None \<Rightarrow>
             if starts_with ''NaN'' (c # cs) \<or> starts_with ''Infinity'' (c # cs)
                \<or> starts_with ''-Infinity'' (c # cs)
             then Inl Unmodelled
             else Inl JSONDecodeError))"
| "parse_elems 0 s = Inl Unmodelled"
| "parse_elems (Suc n) s =
     (case parse_value n s of
        Inl e \<Rightarrow> Inl e
      | Inr (v, rest) \<Rightarrow>
          (case skip_ws rest of
             [] \<Rightarrow> Inl JSONDecodeError
           | c # rest1 \<Rightarrow>
               if c = CHR '']'' then Inr ([v], rest1)
               else if c \<noteq> CHR '','' then Inl JSONDecodeError
               else
                 (case parse_elems n (skip_ws rest1) of
                    Inl e \<Rightarrow> Inl e
                  | Inr (vs, rest2) \<Rightarrow> Inr (v # vs, rest2))))"
| "parse_members 0 s = Inl Unmodelled"
| "parse_members (Suc n) s =
     (case s of
        [] \<Rightarrow> Inl JSONDecodeError
      | q # cs \<Rightarrow>
          if q \<noteq> dquote then Inl JSONDecodeError
          else
            (case scan_string cs of
               Inl e \<Rightarrow> Inl e
             | Inr (k, rest) \<Rightarrow>
                 (case skip_ws rest of
                    [] \<Rightarrow> Inl JSONDecodeError
                  | c # rest1 \<Rightarrow>
                      if c \<noteq> CHR '':'' then Inl JSONDecodeError
                      else
                        (case parse_value n (skip_ws rest1) of
                           Inl e \<Rightarrow> Inl e
                         | Inr (v, rest2) \<Rightarrow>
                             (case skip_ws rest2 of
                                [] \<Rightarrow> Inl JSONDecodeError
                              | c2 # rest3 \<Rightarrow>
                                  if c2 = CHR ''}'' then Inr ([(k, v)], rest3)
                                  else if c2 \<noteq> CHR '','' then Inl JSONDecodeError
                                  else
                                    (case parse_members n (skip_ws rest3) of
                                       Inl e \<Rightarrow> Inl e
                                     | Inr (ps, rest4) \<Rightarrow> Inr ((k, v) # ps, rest4)))))))"

definition loads :: "string \<Rightarrow> exn + json" where
  "loads s =
     (case parse_value (Suc (length s)) (skip_ws s) of
        Inl e \<Rightarrow> Inl e
      | Inr (v, rest) \<Rightarrow> if skip_ws rest = [] then Inr v else Inl JSONDecodeError)"

section \<open>Session manager\<close>

text \<open>
  \<^verbatim>\<open>str.strip()\<close> removes the characters for which \<^verbatim>\<open>str.isspace\<close> holds; up to U+00FF
  they are U+0009 to U+000D, U+001C to U+0020, U+0085 and U+00A0.
\<close>

definition is_space :: "char \<Rightarrow> bool" where
  "is_space c =
     (let n = (of_char c :: nat)
      in (9 \<le> n \<and> n \<le> 13) \<or> (28 \<le> n \<and> n \<le> 32) \<or> n = 133 \<or> n = 160)"

definition strip :: "string \<Rightarrow> string" where
  "strip s = rev (dropWhile is_space (rev (dropWhile is_space s)))"

text \<open>
  The test whether a line holds a backslash followed by the letter u, anywhere.
\<close>

fun contains_backslash_u :: "string \<Rightarrow> bool" where
  "contains_backslash_u [] = False"
| "contains_backslash_u [c] = False"
| "contains_backslash_u (c # d # cs) =
     ((c = backslash \<and> d = CHR ''u'') \<or> contains_backslash_u (d # cs))"

text \<open>
  What the manager takes from outside this file: \<^verbatim>\<open>safe_filename\<close> of
  \<^verbatim>\<open>nanobot.utils.helpers\<close>, \<^verbatim>\<open>datetime.isoformat\<close>, \<^verbatim>\<open>datetime.fromisoformat\<close>
  (\<^const>\<open>None\<close> when it raises \<^verbatim>\<open>ValueError\<close>), the readings of the clock by
  \<^verbatim>\<open>datetime.now()\<close>, one per call, and the name of the sessions directory.
\<close>

record env =
  safe_filename :: "string \<Rightarrow> string"
  isoformat :: "datetime \<Rightarrow> string"
  fromisoformat :: "string \<Rightarrow> datetime option"
  clock :: "nat \<Rightarrow> datetime"
  sessions_dir_name :: string

text \<open>
  The state of a manager and of what it touches. A directory maps the stem of a file
  \<^verbatim>\<open>stem.jsonl\<close> to its lines, without their line terminators. Session objects live in a
  heap, so that two objects with equal fields are still two instances; the cache maps a key
  to the address of an object.
\<close>

record manager =
  sessions_dir :: "string \<rightharpoonup> string list"
  legacy_sessions_dir :: "string \<rightharpoonup> string list"
  cache :: "string \<rightharpoonup> nat"
  heap :: "nat \<rightharpoonup> session"
  next_addr :: nat
  ticks :: nat

definition now :: "env \<Rightarrow> manager \<Rightarrow> datetime \<times> manager" where
  "now env m = (clock env (ticks m), m\<lparr>ticks := ticks m + 1\<rparr>)"

definition alloc :: "session \<Rightarrow> manager \<Rightarrow> nat \<times> manager" where
  "alloc s m = (next_addr m, m\<lparr>heap := (heap m)(next_addr m \<mapsto> s), next_addr := next_addr m + 1\<rparr>)"

text \<open>
  \<^verbatim>\<open>Session(key=key)\<close>: the default factories read the clock for \<^verbatim>\<open>created_at\<close>, then
  for \<^verbatim>\<open>updated_at\<close>.
\<close>

definition new_session :: "env \<Rightarrow> string \<Rightarrow> manager \<Rightarrow> nat \<times> manager" where
  "new_session env k m =
     (let (c, m1) = now env m;
          (u, m2) = now env m1
      in alloc \<lparr>key = k, messages = [], created_at = c, updated_at = u,
                metadata = JDict [], last_consolidated = JInt 0\<rparr> m2)"

definition get_session_path :: "env \<Rightarrow> string \<Rightarrow> string" where
  "get_session_path env k = safe_filename env (map (\<lambda>c. if c = CHR '':'' then CHR ''_'' else c) k)"

definition metadata_line :: "env \<Rightarrow> session \<Rightarrow> pydict" where
  "metadata_line env s =
     [(''_type'', JStr ''metadata''),
      (''created_at'', JStr (isoformat env (created_at s))),
      (''updated_at'', JStr (isoformat env (updated_at s))),
      (''metadata'', metadata s),
      (''last_consolidated'', last_consolidated s)]"

definition file_of :: "env \<Rightarrow> session \<Rightarrow> string list" where
  "file_of env s = dumps (JDict (metadata_line env s)) # map (\<lambda>msg. dumps (JDict msg)) (messages s)"

text \<open>
  \<^verbatim>\<open>save\<close> overwrites the file of the session's key and puts the object into the cache.
\<close>

definition save :: "env \<Rightarrow> nat \<Rightarrow> manager \<Rightarrow> manager" where
  "save env a m =
     (case heap m a of
        None \<Rightarrow> m
      | Some s \<Rightarrow>
          m\<lparr>sessions_dir := (sessions_dir m)(get_session_path env (key s) \<mapsto> file_of env s),
            cache := (cache m)(key s \<mapsto> a)\<rparr>)"

text \<open>
  The local variables of \<^verbatim>\<open>_load\<close> and the loop over the lines of the file. A line that
  is not a dictionary has no \<^verbatim>\<open>get\<close>: \<^verbatim>\<open>AttributeError\<close>.
\<close>

record load_state =
  ls_messages :: "pydict list"
  ls_metadata :: json
  ls_created_at :: "datetime option"
  ls_updated_at :: "datetime option"
  ls_last_consolidated :: json
  needs_normalize_save :: bool

definition initial_load_state :: load_state where
  "initial_load_state =
     \<lparr>ls_messages = [], ls_metadata = JDict [], ls_created_at = None, ls_updated_at = None,
      ls_last_consolidated = JInt 0, needs_normalize_save = False\<rparr>"

definition parse_time :: "env \<Rightarrow> pydict \<Rightarrow> string \<Rightarrow> exn + datetime option" where
  "parse_time env data k =
     (if truthy (dict_get data k) then
        (case dict_get data k of
           JStr t \<Rightarrow> (case fromisoformat env t of None \<Rightarrow> Inl ValueError | Some d \<Rightarrow> Inr (Some d))
         | _ \<Rightarrow> Inl TypeError)
      else Inr None)"

fun read_lines :: "env \<Rightarrow> string list \<Rightarrow> load_state \<Rightarrow> exn + load_state" where
  "read_lines env [] st = Inr st"
| "read_lines env (raw # rest) st =
     (let st = (if contains_backslash_u raw then st\<lparr>needs_normalize_save := True\<rparr> else st);
          line = strip raw
      in if line = [] then read_lines env rest st
         else
           (case loads line of
              Inl e \<Rightarrow> Inl e
            | Inr (JDict data) \<Rightarrow>
                if dict_get data ''_type'' = JStr ''metadata'' then
                  (case parse_time env data ''created_at'' of
                     Inl e \<Rightarrow> Inl e
                   | Inr c \<Rightarrow>
                       (case parse_time env data ''updated_at'' of
                          Inl e \<Rightarrow> Inl e
                        | Inr u \<Rightarrow>
                            read_lines env rest
                              (st\<lparr>ls_metadata := dict_get_default data ''metadata'' (JDict []),
                                  ls_created_at := c, ls_updated_at := u,
                                  ls_last_consolidated := dict_get_default data ''last_consolidated'' (JInt 0)\<rparr>)))
                else read_lines env rest (st\<lparr>ls_messages := ls_messages st @ [data]\<rparr>)
            | Inr _ \<Rightarrow> Inl AttributeError))"

text \<open>
  The move of a legacy file, before the \<^verbatim>\<open>try\<close> block.
\<close>

definition migrate :: "env \<Rightarrow> string \<Rightarrow> manager \<Rightarrow> manager" where
  "migrate env k m =
     (let p = get_session_path env k
      in if sessions_dir m p = None then
           (case legacy_sessions_dir m p of
              None \<Rightarrow> m
            | Some f \<Rightarrow> m\<lparr>sessions_dir := (sessions_dir m)(p \<mapsto> f),
                          legacy_sessions_dir := (legacy_sessions_dir m)(p := None)\<rparr>)
         else m)"

definition or_now :: "env \<Rightarrow> datetime option \<Rightarrow> manager \<Rightarrow> datetime \<times> manager" where
  "or_now env t m = (case t of Some d \<Rightarrow> (d, m) | None \<Rightarrow> now env m)"

text \<open>
  \<^verbatim>\<open>_load\<close>: every Python exception raised in the \<^verbatim>\<open>try\<close> block gives
  \<^verbatim>\<open>None\<close>.
\<close>

definition load :: "env \<Rightarrow> string \<Rightarrow> manager \<Rightarrow> exn + (nat option \<times> manager)" where
  "load env k m =
     (let m1 = migrate env k m
      in case sessions_dir m1 (get_session_path env k) of
           None \<Rightarrow> Inr (None, m1)
         | Some lines \<Rightarrow>
             (case read_lines env lines initial_load_state of
                Inl e \<Rightarrow> if e = Unmodelled then Inl Unmodelled else Inr (None, m1)
              | Inr st \<Rightarrow>
                  (let (c, m2) = or_now env (ls_created_at st) m1;
                       (u, m3) = or_now env (ls_updated_at st) m2;
                       (a, m4) = alloc \<lparr>key = k, messages = ls_messages st, created_at = c,
                                        updated_at = u, metadata = ls_metadata st,
                                        last_consolidated = ls_last_consolidated st\<rparr> m3
                   in Inr (Some a, if needs_normalize_save st then save env a m4 else m4))))"

definition get_or_create :: "env \<Rightarrow> string \<Rightarrow> manager \<Rightarrow> exn + (nat \<times> manager)" where
  "get_or_create env k m =
     (case cache m k of
        Some a \<Rightarrow> Inr (a, m)
      | None \<Rightarrow>
          (case load env k m of
             Inl e \<Rightarrow> Inl e
           | Inr (r, m1) \<Rightarrow>
               (let (a, m2) = (case r of Some a \<Rightarrow> (a, m1) | None \<Rightarrow> new_session env k m1)
                in Inr (a, m2\<lparr>cache := (cache m2)(k \<mapsto> a)\<rparr>))))"

definition invalidate :: "string \<Rightarrow> manager \<Rightarrow> manager" where
  "invalidate k m = m\<lparr>cache := (cache m)(k := None)\<rparr>"

subsection \<open>Listing\<close>

text \<open>
  Python's order on the values that can be a sort key: strings compare by code points,
  integers and booleans as numbers; \<^verbatim>\<open>None\<close>, dictionaries and values of two different
  kinds raise \<^verbatim>\<open>TypeError\<close>. The comparison of two lists is not modelled.
\<close>

fun str_lt :: "string \<Rightarrow> string \<Rightarrow> bool" where
  "str_lt [] [] = False"
| "str_lt [] (y # ys) = True"
| "str_lt (x # xs) [] = False"
| "str_lt (x # xs) (y # ys) = ((of_char x :: nat) < of_char y \<or> (x = y \<and> str_lt xs ys))"

fun num_val :: "json \<Rightarrow> int option" where
  "num_val (JInt i) = Some i"
| "num_val (JBool b) = Some (if b then 1 else 0)"
| "num_val v = None"

fun py_lt :: "json \<Rightarrow> json \<Rightarrow> exn + bool" where
  "py_lt (JStr x) (JStr y) = Inr (str_lt x y)"
| "py_lt (JList x) (JList y) = Inl Unmodelled"
| "py_lt a b =
     (case (num_val a, num_val b) of
        (Some i, Some j) \<Rightarrow> Inr (i < j)
      | _ \<Rightarrow> Inl TypeError)"

text \<open>
  \<^verbatim>\<open>sorted(xs, key=f, reverse=True)\<close> is stable and descending: an item goes behind
  every item that is not smaller than it. It is modelled as an insertion sort; an
  exception of a comparison leaves the sort.
\<close>

fun insert_desc :: "(pydict \<Rightarrow> json) \<Rightarrow> pydict \<Rightarrow> pydict list \<Rightarrow> exn + pydict list" where
  "insert_desc f x [] = Inr [x]"
| "insert_desc f x (y # ys) =
     (case py_lt (f y) (f x) of
        Inl e \<Rightarrow> Inl e
      | Inr lt \<Rightarrow>
          if lt then Inr (x # y # ys)
          else (case insert_desc f x ys of Inl e \<Rightarrow> Inl e | Inr r \<Rightarrow> Inr (y # r)))"

fun sorted_desc :: "(pydict \<Rightarrow> json) \<Rightarrow> pydict list \<Rightarrow> pydict list \<Rightarrow> exn + pydict list" where
  "sorted_desc f [] acc = Inr acc"
| "sorted_desc f (x # xs) acc =
     (case insert_desc f x acc of Inl e \<Rightarrow> Inl e | Inr acc' \<Rightarrow> sorted_desc f xs acc')"

text \<open>
  \<^verbatim>\<open>list_sessions\<close>: the body of the loop for one file, the loop over the files that
  \<^verbatim>\<open>glob\<close> yields (in the order \<open>glob\<close>), and the sort, which is outside the
  \<^verbatim>\<open>try\<close> block.
\<close>

definition summary_of :: "env \<Rightarrow> manager \<Rightarrow> string \<Rightarrow> exn + pydict option" where
  "summary_of env m stem =
     (case sessions_dir m stem of
        None \<Rightarrow> Inr None
      | Some lines \<Rightarrow>
          (let first_line = strip (case lines of [] \<Rightarrow> [] | l # _ \<Rightarrow> l)
           in if first_line = [] then Inr None
              else
                (case loads first_line of
                   Inl e \<Rightarrow> if e = Unmodelled then Inl Unmodelled else Inr None
                 | Inr (JDict data) \<Rightarrow>
                     if dict_get data ''_type'' = JStr ''metadata'' then
                       Inr (Some [(''key'', JStr (map (\<lambda>c. if c = CHR ''_'' then CHR '':'' else c) stem)),
                                  (''created_at'', dict_get data ''created_at''),
                                  (''updated_at'', dict_get data ''updated_at''),
                                  (''path'', JStr (sessions_dir_name env @ ''/'' @ stem @ ''.jsonl''))])
                     else Inr None
                 | Inr _ \<Rightarrow> Inr None)))"

fun summaries :: "env \<Rightarrow> manager \<Rightarrow> string list \<Rightarrow> pydict list \<Rightarrow> exn + pydict list" where
  "summaries env m [] sessions = Inr sessions"
| "summaries env m (stem # stems) sessions =
     (case summary_of env m stem of
        Inl e \<Rightarrow> Inl e
      | Inr None \<Rightarrow> summaries env m stems sessions
      | Inr (Some x) \<Rightarrow> summaries env m stems (sessions @ [x]))"

definition list_sessions :: "env \<Rightarrow> string list \<Rightarrow> manager \<Rightarrow> exn + pydict list" where
  "list_sessions env glob m =
     (case summaries env m glob [] of
        Inl e \<Rightarrow> Inl e
      | Inr sessions \<Rightarrow> sorted_desc (\<lambda>x. dict_get_default x ''updated_at'' (JStr '''')) sessions [])"

subsection \<open>Sequences of operations\<close>

text \<open>
  What a caller can do with a manager and the sessions it hands out; a session is named by
  its address.
\<close>

datatype op =
    GetOrCreate string
  | Save nat
  | Invalidate string
  | AddMessage nat string string pydict
  | Clear nat

definition add_message_at :: "env \<Rightarrow> nat \<Rightarrow> string \<Rightarrow> string \<Rightarrow> pydict \<Rightarrow> manager \<Rightarrow> manager" where
  "add_message_at env a role content kwargs m =
     (case heap m a of
        None \<Rightarrow> m
      | Some s \<Rightarrow>
          (let (t, m1) = now env m;
               (u, m2) = now env m1
           in m2\<lparr>heap := (heap m2)(a \<mapsto> add_message (isoformat env t) u role content kwargs s)\<rparr>))"

definition clear_at :: "env \<Rightarrow> nat \<Rightarrow> manager \<Rightarrow> manager" where
  "clear_at env a m =
     (case heap m a of
        None \<Rightarrow> m
      | Some s \<Rightarrow> (let (t, m1) = now env m in m1\<lparr>heap := (heap m1)(a \<mapsto> clear t s)\<rparr>))"

fun step :: "env \<Rightarrow> op \<Rightarrow> manager \<Rightarrow> exn + (nat option \<times> manager)" where
  "step env (GetOrCreate k) m =
     (case get_or_create env k m of Inl e \<Rightarrow> Inl e | Inr (a, m') \<Rightarrow> Inr (Some a, m'))"
| "step env (Save a) m = Inr (None, save env a m)"
| "step env (Invalidate k) m = Inr (None, invalidate k m)"
| "step env (AddMessage a role content kwargs) m = Inr (None, add_message_at env a role content kwargs m)"
| "step env (Clear a) m = Inr (None, clear_at env a m)"

fun run :: "env \<Rightarrow> op list \<Rightarrow> manager \<Rightarrow> exn + (nat option list \<times> manager)" where
  "run env [] m = Inr ([], m)"
| "run env (x # xs) m =
     (case step env x m of
        Inl e \<Rightarrow> Inl e
      | Inr (r, m1) \<Rightarrow>
          (case run env xs m1 of
             Inl e \<Rightarrow> Inl e
           | Inr (rs, m2) \<Rightarrow> Inr (r # rs, m2)))"

subsection \<open>Example environment and files\<close>

text \<open>
  An environment for examples: file names are kept, every time is written as \<^verbatim>\<open>t\<close>
  and read as the instant 0, and the clock counts its readings.
\<close>

definition test_env :: env where
  "test_env = \<lparr>safe_filename = (\<lambda>s. s), isoformat = (\<lambda>d. ''t''), fromisoformat = (\<lambda>s. Some 0),
     clock = (\<lambda>n. int n), sessions_dir_name = ''sessions''\<rparr>"

text \<open>
  A manager on empty directories, before any call.
\<close>

definition empty_manager :: manager where
  "empty_manager = \<lparr>sessions_dir = Map.empty, legacy_sessions_dir = Map.empty, cache = Map.empty,
     heap = Map.empty, next_addr = 0, ticks = 0\<rparr>"

text \<open>
  The metadata record that carries its tag and nothing else.
\<close>

definition bare_metadata_line :: string where
  "bare_metadata_line = dumps (JDict [(''_type'', JStr ''metadata'')])"

text \<open>
  Two session files that consist of this record.
\<close>

definition two_bare_files :: manager where
  "two_bare_files = empty_manager\<lparr>sessions_dir := [''a'' \<mapsto> [bare_metadata_line], ''b'' \<mapsto> [bare_metadata_line]]\<rparr>"

subsection \<open>Instances handed out by a sequence of operations\<close>

text \<open>
  The values returned by the operations of a sequence, in order.
\<close>

definition returned :: "env \<Rightarrow> op list \<Rightarrow> manager \<Rightarrow> exn + nat option list" where
  "returned env ops m = (case run env ops m of Inl e \<Rightarrow> Inl e | Inr (rs, m') \<Rightarrow> Inr rs)"

text \<open>
  An operation displaces the cached instance of a key when it is \<^verbatim>\<open>invalidate\<close> of that
  key, or \<^verbatim>\<open>save\<close> of a session object with that key other than the cached one.
\<close>

fun displaces :: "manager \<Rightarrow> string \<Rightarrow> op \<Rightarrow> bool" where
  "displaces m k (Invalidate k') = (k' = k)"
| "displaces m k (Save b) =
     (case heap m b of None \<Rightarrow> False | Some s \<Rightarrow> key s = k \<and> cache m k \<noteq> Some b)"
| "displaces m k x = False"

text \<open>
  No operation of the sequence displaces the cached instance of the key, each operation
  being looked at in the state in which it runs.
\<close>

fun undisturbed :: "env \<Rightarrow> string \<Rightarrow> op list \<Rightarrow> manager \<Rightarrow> bool" where
  "undisturbed env k [] m = True"
| "undisturbed env k (x # xs) m =
     (\<not> displaces m k x \<and>
      (case step env x m of Inl e \<Rightarrow> True | Inr (r, m') \<Rightarrow> undisturbed env k xs m'))"

text \<open>
  The values returned by the calls \<^verbatim>\<open>get_or_create(k)\<close> of a sequence.
\<close>

fun results_for :: "string \<Rightarrow> op list \<Rightarrow> nat option list \<Rightarrow> nat option list" where
  "results_for k (x # xs) (r # rs) =
     (if x = GetOrCreate k then r # results_for k xs rs else results_for k xs rs)"
| "results_for k xs rs = []"

text \<open>
  All returned values are one and the same address.
\<close>

definition same_instance :: "nat option list \<Rightarrow> bool" where
  "same_instance rs = (\<exists>a. list_all (\<lambda>r. r = Some a) rs)"

text \<open>
  A sequence that saves the cached instance, invalidates another key and mutates the session.
\<close>

definition busy_ops :: "op list" where
  "busy_ops = [GetOrCreate ''k'', AddMessage 0 ''user'' ''hi'' [], Save 0, GetOrCreate ''j'',
               Invalidate ''j'', GetOrCreate ''k'', Clear 0, GetOrCreate ''k'']"



subsection \<open>Measures and invariants of values\<close>





subsection \<open>Saving and loading again\<close>












subsection \<open>Normalising a file on load\<close>












section \<open>Properties of the session\<close>

lemma collect_acc: "collect k ms seen sel = sel @ collect k ms seen []"
proof (induction ms arbitrary: seen sel)
  case Nil
  show ?case by simp
next
  case (Cons m ms)
  have a: "collect k ms (seen + 1) (sel @ [m]) = (sel @ [m]) @ collect k ms (seen + 1) []"
    by (rule Cons.IH)
  have b: "collect k ms (seen + 1) [m] = [m] @ collect k ms (seen + 1) []"
    by (rule Cons.IH)
  have c: "collect k ms seen (sel @ [m]) = (sel @ [m]) @ collect k ms seen []"
    by (rule Cons.IH)
  have d: "collect k ms seen [m] = [m] @ collect k ms seen []"
    by (rule Cons.IH)
  show ?case
    by (simp add: Let_def a b c d)
qed

lemma collect_prefix: "\<exists>j \<le> length ms. collect k ms seen [] = take j ms"
proof (induction ms arbitrary: seen)
  case Nil
  show ?case by simp
next
  case (Cons m ms)
  have step: "\<exists>j \<le> length (m # ms). [m] @ collect k ms sn [] = take j (m # ms)" for sn
  proof -
    obtain j where "j \<le> length ms" "collect k ms sn [] = take j ms"
      using Cons.IH by blast
    then have "Suc j \<le> length (m # ms) \<and> [m] @ collect k ms sn [] = take (Suc j) (m # ms)"
      by simp
    then show ?thesis by blast
  qed
  have one: "\<exists>j \<le> length (m # ms). [m] = take j (m # ms)"
    by (rule exI [of _ 1]) simp
  show ?case
    using step [of seen] step [of "seen + 1"] one
    by (simp add: Let_def collect_acc [of k ms _ "[m]"])
qed

lemma collect_anchors:
  "seen < k \<Longrightarrow> int (anchors (collect k ms seen [])) = min (int (anchors ms)) (k - seen)"
proof (induction ms arbitrary: seen)
  case Nil
  then show ?case by (simp add: anchors_def)
next
  case (Cons m ms)
  show ?case
  proof (cases "is_context_anchor m")
    case False
    then show ?thesis
      using Cons.IH [OF Cons.prems]
      by (simp add: Let_def collect_acc [of k ms _ "[m]"] anchors_def)
  next
    case True
    show ?thesis
    proof (cases "seen + 1 \<ge> k")
      case True
      with \<open>is_context_anchor m\<close> Cons.prems show ?thesis
        by (simp add: Let_def anchors_def)
    next
      case False
      then have "seen + 1 < k" by simp
      from Cons.IH [OF this] \<open>is_context_anchor m\<close> False show ?thesis
        by (simp add: Let_def collect_acc [of k ms _ "[m]"] anchors_def)
    qed
  qed
qed

lemma anchors_rev: "anchors (rev ms) = anchors ms"
  by (simp add: anchors_def flip: rev_filter)

lemma window_suffix: "\<exists>n \<le> length msgs. window k msgs = drop n msgs"
proof -
  obtain j where j: "j \<le> length (rev msgs)" "collect k (rev msgs) 0 [] = take j (rev msgs)"
    using collect_prefix by blast
  have "rev (take j (rev msgs)) = drop (length msgs - j) msgs"
    by (simp add: rev_take)
  with j have "length msgs - j \<le> length msgs \<and> window k msgs = drop (length msgs - j) msgs"
    by (simp add: window_def)
  then show ?thesis by blast
qed

lemma window_anchors: "1 \<le> k \<Longrightarrow> int (anchors (window k msgs)) = min (int (anchors msgs)) k"
  using collect_anchors [of 0 k "rev msgs"]
  by (simp add: window_def anchors_rev)



lemma get_history_window:
  "get_history s k = (if k \<le> 0 then Inr [] else emit (window k (messages s)) [])"
  by (simp add: get_history_def window_def)

lemma count_anchors: "count_context_messages s = int (anchors (messages s))"
  by (simp add: count_context_messages_def anchors_def sum_list_triv)





lemma collect_all:
  "seen < k \<Longrightarrow> int (anchors ms) < k - seen \<Longrightarrow> collect k ms seen [] = ms"
proof (induction ms arbitrary: seen)
  case Nil
  show ?case by simp
next
  case (Cons m ms)
  show ?case
  proof (cases "is_context_anchor m")
    case False
    with Cons.prems have "int (anchors ms) < k - seen" by (simp add: anchors_def)
    from Cons.IH [OF Cons.prems(1) this] False show ?thesis
      by (simp add: Let_def collect_acc [of k ms _ "[m]"])
  next
    case True
    with Cons.prems have a: "seen + 1 < k" and b: "int (anchors ms) < k - (seen + 1)"
      by (simp_all add: anchors_def)
    from Cons.IH [OF a b] True a show ?thesis
      by (simp add: Let_def collect_acc [of k ms _ "[m]"])
  qed
qed

lemma collect_last:
  "seen < k \<Longrightarrow> k - seen \<le> int (anchors ms) \<Longrightarrow>
     collect k ms seen [] \<noteq> [] \<and> is_context_anchor (last (collect k ms seen []))"
proof (induction ms arbitrary: seen)
  case Nil
  then show ?case by (simp add: anchors_def)
next
  case (Cons m ms)
  show ?case
  proof (cases "is_context_anchor m")
    case False
    with Cons.prems have "k - seen \<le> int (anchors ms)" by (simp add: anchors_def)
    from Cons.IH [OF Cons.prems(1) this] False show ?thesis
      by (simp add: Let_def collect_acc [of k ms _ "[m]"])
  next
    case True
    show ?thesis
    proof (cases "seen + 1 \<ge> k")
      case True
      with \<open>is_context_anchor m\<close> show ?thesis by (simp add: Let_def)
    next
      case False
      then have a: "seen + 1 < k" by simp
      from Cons.prems True have b: "k - (seen + 1) \<le> int (anchors ms)" by (simp add: anchors_def)
      from Cons.IH [OF a b] True False show ?thesis
        by (simp add: Let_def collect_acc [of k ms _ "[m]"])
    qed
  qed
qed

lemma window_all: "1 \<le> k \<Longrightarrow> int (anchors msgs) < k \<Longrightarrow> window k msgs = msgs"
  using collect_all [of 0 k "rev msgs"] by (simp add: window_def anchors_rev)

lemma window_hd:
  "1 \<le> k \<Longrightarrow> k \<le> int (anchors msgs) \<Longrightarrow> window k msgs \<noteq> [] \<and> is_context_anchor (hd (window k msgs))"
  using collect_last [of 0 k "rev msgs"] by (simp add: window_def anchors_rev hd_rev)

lemma tool_history_1:
  "get_history tool_session 1 = Inr [[(''role'', JStr ''assistant''), (''content'', JStr ''done'')]]"
  by (simp add: get_history_def tool_session_def tool_log_def is_context_anchor_def dict_get_def
      dict_get_default_def entry_of_def optional_keys_def)


lemma falsy_cases: "(\<not> truthy v) = (v \<in> {JNull, JBool False, JInt 0, JStr [], JList [], JDict []})"
  by (cases v) auto

section \<open>Claims about the session\<close>



text \<open>
  C2, counterexample. With \<open>max_messages = 1\<close> the tool log yields the final assistant
  answer alone: the assistant message with the pending tool call (index 1) and the tool result
  (index 2), which immediately precede the oldest included anchor (index 3), are left out.
\<close>

theorem get_history_drops_preceding_tool_calls:
  "get_history tool_session 1 = Inr [[(''role'', JStr ''assistant''), (''content'', JStr ''done'')]] \<and>
   messages tool_session ! 3 = [(''role'', JStr ''assistant''), (''content'', JStr ''done''), (''timestamp'', JStr ''t4'')] \<and>
   is_context_anchor (messages tool_session ! 3) \<and>
   dict_get (messages tool_session ! 1) ''role'' = JStr ''assistant'' \<and>
   truthy (dict_get (messages tool_session ! 1) ''tool_calls'') \<and>
   \<not> is_context_anchor (messages tool_session ! 1) \<and>
   \<not> is_context_anchor (messages tool_session ! 2)"
  by (simp add: tool_history_1)
    (simp add: tool_session_def tool_log_def is_context_anchor_def dict_get_def)

text \<open>
  C2, amended. For \<open>k \<ge> 1\<close> the result is built from a suffix \<open>drop n\<close> of the log, so
  every message newer than an included one is included. When the log has fewer than \<open>k\<close>
  anchors the suffix is the whole log; otherwise it starts exactly at the \<open>k\<close>-th most recent
  anchor, so that no message older than this anchor is included.
\<close>

theorem get_history_starts_at_anchor:
  "1 \<le> k \<Longrightarrow>
     \<exists>n \<le> length (messages s).
       get_history s k = emit (drop n (messages s)) [] \<and>
       (if count_context_messages s < k then n = 0
        else n < length (messages s) \<and> is_context_anchor (messages s ! n) \<and>
             int (anchors (drop n (messages s))) = k)"
proof -
  assume k: "1 \<le> k"
  show ?thesis
  proof (cases "count_context_messages s < k")
    case True
    then have "window k (messages s) = messages s"
      using k window_all by (simp add: count_anchors)
    with k True have "0 \<le> length (messages s) \<and> get_history s k = emit (drop 0 (messages s)) [] \<and>
       (if count_context_messages s < k then (0::nat) = 0
        else 0 < length (messages s) \<and> is_context_anchor (messages s ! 0) \<and>
             int (anchors (drop 0 (messages s))) = k)"
      by (simp add: get_history_window)
    then show ?thesis by blast
  next
    case False
    then have le: "k \<le> int (anchors (messages s))" by (simp add: count_anchors)
    obtain n where n: "n \<le> length (messages s)" "window k (messages s) = drop n (messages s)"
      using window_suffix by blast
    from window_hd [OF k le] n have ne: "drop n (messages s) \<noteq> []"
      and hd: "is_context_anchor (hd (drop n (messages s)))" by simp_all
    from ne have lt: "n < length (messages s)" by simp
    then have "hd (drop n (messages s)) = messages s ! n" by (simp add: hd_drop_conv_nth)
    with hd have anc: "is_context_anchor (messages s ! n)" by simp
    have cnt: "int (anchors (drop n (messages s))) = k"
      using window_anchors [OF k, of "messages s"] n le by simp
    have "get_history s k = emit (drop n (messages s)) []"
      using k n by (simp add: get_history_window)
    with lt anc cnt False n show ?thesis
      by (intro exI [of _ n]) simp
  qed
qed

text \<open>Witness for the amended C2: the tool log at \<open>max_messages = 1\<close>.\<close>

theorem get_history_starts_at_anchor_witness:
  "(1::int) \<le> 1 \<and>
   (\<exists>n \<le> length (messages tool_session).
       get_history tool_session 1 = emit (drop n (messages tool_session)) [] \<and>
       (if count_context_messages tool_session < 1 then n = 0
        else n < length (messages tool_session) \<and> is_context_anchor (messages tool_session ! n) \<and>
             int (anchors (drop n (messages tool_session))) = 1))"
  using get_history_starts_at_anchor [of 1 tool_session] by simp

text \<open>
  C7. After \<^verbatim>\<open>clear\<close> the log is empty, \<^verbatim>\<open>get_history\<close> returns the empty list for every
  argument, \<^verbatim>\<open>last_consolidated\<close> is 0, and the key and the metadata are those of before.
\<close>

theorem clear_resets:
  "messages (clear t s) = [] \<and>
   (\<forall>n. get_history (clear t s) n = Inr []) \<and>
   last_consolidated (clear t s) = JInt 0 \<and>
   key (clear t s) = key s \<and>
   metadata (clear t s) = metadata s"
  by (simp add: clear_def get_history_def)

text \<open>
  C8. Two sessions with the same message list have the same history for every argument,
  whatever their \<^verbatim>\<open>last_consolidated\<close> (and their other fields) are.
\<close>

theorem get_history_ignores_last_consolidated:
  "messages s1 = messages s2 \<Longrightarrow> get_history s1 n = get_history s2 n"
  by (simp add: get_history_def)

text \<open>Witness for C8: the tool session and a copy with another watermark.\<close>

theorem get_history_ignores_last_consolidated_witness:
  "messages (tool_session\<lparr>last_consolidated := JInt 3\<rparr>) = messages tool_session \<and>
   get_history (tool_session\<lparr>last_consolidated := JInt 3\<rparr>) 1 = get_history tool_session 1"
  using get_history_ignores_last_consolidated [of "tool_session\<lparr>last_consolidated := JInt 3\<rparr>" tool_session 1]
  by simp

text \<open>
  C10, counterexample. An assistant message whose \<^verbatim>\<open>tool_calls\<close> field is present and is
  neither \<^verbatim>\<open>None\<close> nor an empty list, but an empty dictionary, is an anchor.
\<close>

theorem empty_dict_tool_calls_is_anchor:
  "is_context_anchor empty_calls_message \<and>
   map_of empty_calls_message ''role'' = Some (JStr ''assistant'') \<and>
   map_of empty_calls_message ''tool_calls'' = Some (JDict []) \<and>
   JDict [] \<noteq> JNull \<and> JDict [] \<noteq> JList []"
  by (simp add: empty_calls_message_def is_context_anchor_def dict_get_def)

text \<open>
  C10, amended. A message is an anchor exactly when its role is \<^verbatim>\<open>"user"\<close>, or its role
  is \<^verbatim>\<open>"assistant"\<close> and its \<^verbatim>\<open>tool_calls\<close> field is absent or false in Python's sense:
  \<^verbatim>\<open>None\<close>, \<^verbatim>\<open>False\<close>, zero, the empty string, the empty list or the empty dictionary.
  \<^verbatim>\<open>count_context_messages\<close> is the number of such messages in the log.
\<close>

theorem is_context_anchor_iff:
  "is_context_anchor m =
     (map_of m ''role'' = Some (JStr ''user'') \<or>
      map_of m ''role'' = Some (JStr ''assistant'') \<and>
      (case map_of m ''tool_calls'' of
         None \<Rightarrow> True
       | Some v \<Rightarrow> v \<in> {JNull, JBool False, JInt 0, JStr [], JList [], JDict []}))
   \<and> count_context_messages s = int (length (filter is_context_anchor (messages s)))"
proof -
  have "(\<not> truthy (dict_get m ''tool_calls'')) =
        (case map_of m ''tool_calls'' of
           None \<Rightarrow> True
         | Some v \<Rightarrow> v \<in> {JNull, JBool False, JInt 0, JStr [], JList [], JDict []})"
    using falsy_cases by (simp add: dict_get_def split: option.splits)
  moreover have "(dict_get m ''role'' = JStr r) = (map_of m ''role'' = Some (JStr r))" for r
    by (simp add: dict_get_def split: option.splits)
  ultimately show ?thesis
    by (auto simp: is_context_anchor_def count_anchors anchors_def)
qed

section \<open>Claims about the session manager\<close>

lemma now_cache: "now env m = (t, m') \<Longrightarrow> cache m' = cache m"
  by (auto simp: now_def)

lemma or_now_cache: "or_now env t m = (d, m') \<Longrightarrow> cache m' = cache m"
  by (auto simp: or_now_def now_def split: option.splits)

lemma alloc_cache: "alloc s m = (a, m') \<Longrightarrow> cache m' = cache m \<and> heap m' a = Some s"
  by (auto simp: alloc_def)

lemma migrate_cache: "cache (migrate env k m) = cache m"
  by (simp add: migrate_def Let_def split: option.splits)

lemma new_session_cache: "new_session env k m = (a, m') \<Longrightarrow> cache m' = cache m"
  by (auto simp: new_session_def now_def alloc_def Let_def split: prod.splits)

lemma load_cache:
  assumes "load env k' m = Inr (r, m')" and "k \<noteq> k'"
  shows "cache m' k = cache m k"
proof (cases "sessions_dir (migrate env k' m) (get_session_path env k')")
  case None
  with assms have "m' = migrate env k' m" by (simp add: load_def Let_def)
  then show ?thesis by (simp add: migrate_cache)
next
  case (Some lines)
  show ?thesis
  proof (cases "read_lines env lines initial_load_state")
    case (Inl e)
    with Some assms have "m' = migrate env k' m"
      by (simp add: load_def Let_def split: if_splits)
    then show ?thesis by (simp add: migrate_cache)
  next
    case (Inr st)
    obtain c m2 where c: "or_now env (ls_created_at st) (migrate env k' m) = (c, m2)"
      by (cases "or_now env (ls_created_at st) (migrate env k' m)")
    obtain u m3 where u: "or_now env (ls_updated_at st) m2 = (u, m3)"
      by (cases "or_now env (ls_updated_at st) m2")
    obtain a m4 where a: "alloc \<lparr>key = k', messages = ls_messages st, created_at = c,
        updated_at = u, metadata = ls_metadata st,
        last_consolidated = ls_last_consolidated st\<rparr> m3 = (a, m4)"
      by (cases "alloc \<lparr>key = k', messages = ls_messages st, created_at = c,
        updated_at = u, metadata = ls_metadata st,
        last_consolidated = ls_last_consolidated st\<rparr> m3")
    have m4: "cache m4 = cache m"
      using or_now_cache [OF c] or_now_cache [OF u] alloc_cache [OF a] by (simp add: migrate_cache)
    have h: "heap m4 a = Some \<lparr>key = k', messages = ls_messages st, created_at = c,
        updated_at = u, metadata = ls_metadata st,
        last_consolidated = ls_last_consolidated st\<rparr>"
      using alloc_cache [OF a] by simp
    have m': "m' = (if needs_normalize_save st then save env a m4 else m4)"
      using assms(1) Some Inr c u a by (simp add: load_def Let_def)
    show ?thesis
      using m' m4 h assms(2) by (simp add: save_def)
  qed
qed

lemma get_or_create_caches: "get_or_create env k m = Inr (a, m') \<Longrightarrow> cache m' k = Some a"
  by (auto simp: get_or_create_def Let_def split: option.splits sum.splits prod.splits)

lemma get_or_create_cached: "cache m k = Some a \<Longrightarrow> get_or_create env k m = Inr (a, m)"
  by (simp add: get_or_create_def)

lemma get_or_create_other:
  assumes "get_or_create env k' m = Inr (b, m')" and "k \<noteq> k'"
  shows "cache m' k = cache m k"
proof (cases "cache m k'")
  case (Some a)
  with assms show ?thesis by (simp add: get_or_create_def)
next
  case None
  from assms(1) None obtain r m1 where l: "load env k' m = Inr (r, m1)"
    by (auto simp: get_or_create_def split: sum.splits)
  have c1: "cache m1 k = cache m k" by (rule load_cache [OF l assms(2)])
  show ?thesis
  proof (cases r)
    case (Some a)
    with assms None l c1 show ?thesis by (auto simp: get_or_create_def Let_def)
  next
    case None' : None
    obtain a m2 where n: "new_session env k' m1 = (a, m2)" by (cases "new_session env k' m1")
    from assms(1) None None' l n have "m' = m2\<lparr>cache := (cache m2)(k' \<mapsto> a)\<rparr>"
      by (auto simp: get_or_create_def Let_def)
    with new_session_cache [OF n] c1 assms(2) show ?thesis by simp
  qed
qed

lemma step_keeps:
  assumes "cache m k = Some a" and "\<not> displaces m k x" and "step env x m = Inr (r, m')"
  shows "cache m' k = Some a \<and> (x = GetOrCreate k \<longrightarrow> r = Some a)"
proof (cases x)
  case (GetOrCreate k')
  show ?thesis
  proof (cases "k' = k")
    case True
    with assms GetOrCreate show ?thesis by (simp add: get_or_create_cached)
  next
    case False
    from assms(3) GetOrCreate obtain b where "get_or_create env k' m = Inr (b, m')"
      by (auto split: sum.splits)
    from get_or_create_other [OF this] False assms(1) GetOrCreate show ?thesis by auto
  qed
next
  case (Save b)
  with assms show ?thesis by (auto simp: save_def split: option.splits)
next
  case (Invalidate k')
  with assms show ?thesis by (auto simp: invalidate_def)
next
  case (AddMessage b role content kwargs)
  with assms show ?thesis
    by (auto simp: add_message_at_def now_def Let_def split: option.splits)
next
  case (Clear b)
  with assms show ?thesis
    by (auto simp: clear_at_def now_def Let_def split: option.splits)
qed

lemma run_keeps:
  "cache m k = Some a \<Longrightarrow> undisturbed env k ops m \<Longrightarrow> run env ops m = Inr (rs, m') \<Longrightarrow>
     list_all (\<lambda>r. r = Some a) (results_for k ops rs)"
proof (induction ops arbitrary: m rs)
  case Nil
  then show ?case by simp
next
  case (Cons x xs)
  from Cons.prems(3) obtain r m1 rs1 where s: "step env x m = Inr (r, m1)"
    and t: "run env xs m1 = Inr (rs1, m')" and rs: "rs = r # rs1"
    by (auto split: sum.splits)
  from Cons.prems(2) s have nd: "\<not> displaces m k x" and u: "undisturbed env k xs m1"
    by simp_all
  from step_keeps [OF Cons.prems(1) nd s] have c: "cache m1 k = Some a"
    and r: "x = GetOrCreate k \<longrightarrow> r = Some a" by simp_all
  from Cons.IH [OF c u t] r rs show ?case by simp
qed

text \<open>
  C4, counterexample. \<^verbatim>\<open>get_or_create\<close>, \<^verbatim>\<open>invalidate\<close> and \<^verbatim>\<open>get_or_create\<close> again for the
  same key, on a manager with no file: the two calls return the objects at addresses 0 and 1,
  two distinct instances.
\<close>

theorem invalidate_gives_second_instance:
  "returned test_env [GetOrCreate ''k'', Invalidate ''k'', GetOrCreate ''k''] empty_manager
     = Inr [Some 0, None, Some 1]"
  by code_simp

text \<open>
  C4, amended. In a sequence of operations none of which displaces the cached instance of
  the key (no \<^verbatim>\<open>invalidate\<close> of the key, no \<^verbatim>\<open>save\<close> of another session object with this
  key), all calls \<^verbatim>\<open>get_or_create(k)\<close> return the same instance.
\<close>

theorem get_or_create_same_instance:
  "undisturbed env k ops m \<Longrightarrow>
     (case run env ops m of
        Inl e \<Rightarrow> True
      | Inr (rs, m') \<Rightarrow> same_instance (results_for k ops rs))"
proof (induction ops arbitrary: m)
  case Nil
  show ?case by (simp add: same_instance_def)
next
  case (Cons x xs)
  show ?case
  proof (cases "run env (x # xs) m")
    case (Inl e)
    then show ?thesis by simp
  next
    case (Inr p)
    obtain rs m' where p: "p = (rs, m')" by (cases p)
    from Inr p obtain r m1 rs1 where s: "step env x m = Inr (r, m1)"
      and t: "run env xs m1 = Inr (rs1, m')" and rs: "rs = r # rs1"
      by (auto split: sum.splits)
    from Cons.prems s have u: "undisturbed env k xs m1" by simp
    show ?thesis
    proof (cases "x = GetOrCreate k")
      case True
      with s obtain a where g: "get_or_create env k m = Inr (a, m1)" and ra: "r = Some a"
        by (auto split: sum.splits)
      from run_keeps [OF get_or_create_caches [OF g] u t] True ra rs
      have "list_all (\<lambda>r. r = Some a) (results_for k (x # xs) rs)" by simp
      then have "same_instance (results_for k (x # xs) rs)"
        unfolding same_instance_def by blast
      with Inr p show ?thesis by simp
    next
      case False
      from Cons.IH [OF u] t have "same_instance (results_for k xs rs1)" by simp
      with False rs Inr p show ?thesis by simp
    qed
  qed
qed

text \<open>
  Witness for the amended C4: three calls for the key return the object at address 0.
\<close>

theorem get_or_create_same_instance_witness:
  "undisturbed test_env ''k'' busy_ops empty_manager \<and>
   returned test_env busy_ops empty_manager
     = Inr [Some 0, None, None, Some 1, None, Some 0, None, Some 0] \<and>
   (case run test_env busy_ops empty_manager of
      Inl e \<Rightarrow> True
    | Inr (rs, m') \<Rightarrow> same_instance (results_for ''k'' busy_ops rs))"
proof -
  have u: "undisturbed test_env ''k'' busy_ops empty_manager" by code_simp
  have r: "returned test_env busy_ops empty_manager
     = Inr [Some 0, None, None, Some 1, None, Some 0, None, Some 0]" by code_simp
  from get_or_create_same_instance [OF u] u r show ?thesis by simp
qed

text \<open>
  C9, the failing input. Two session files whose first line is the metadata record
  \<^verbatim>\<open>{"_type": "metadata"}\<close>, without \<^verbatim>\<open>updated_at\<close>: both summaries carry
  \<^verbatim>\<open>updated_at = None\<close>, the default of \<^verbatim>\<open>x.get("updated_at", "")\<close> never applies because
  the key is always present, and the sort raises \<^verbatim>\<open>TypeError\<close> instead of returning the two
  summaries.
\<close>

theorem list_sessions_raises_without_updated_at:
  "list_sessions test_env [''a'', ''b''] two_bare_files = Inl TypeError"
  by code_simp







section \<open>Reading back what was written\<close>






























lemma dumps_dict_ne: "dumps (JDict d) \<noteq> []"
  by simp






section \<open>Saving and loading again\<close>

















section \<open>Normalising a file on load\<close>






















end
